theory Spec2Isabelle
  imports Main "HOL-Library.Word" "HOL-Library.AList"
begin

section \<open>Data model: internal/schema\<close>

text \<open>
  Go's \<^verbatim>\<open>int64\<close> is a 64-bit word read as a signed number, a \<^verbatim>\<open>uuid.UUID\<close> is
  sixteen bytes. A \<^verbatim>\<open>string\<close> is a byte sequence.
\<close>

type_synonym int64 = "64 word"
type_synonym uuid = "128 word"

text \<open>
  The field \<^verbatim>\<open>Value any\<close> of \<^verbatim>\<open>schema.Message\<close> holds one of the three event
  structs of message.go; no other value is ever stored there by api.go. The
  constructor arguments are the struct's fields in declaration order:
  \<^verbatim>\<open>MessageCreatedEvent{ID, Message}\<close>, \<^verbatim>\<open>MessageReactionCountChangedEvent{ID, Count}\<close>,
  \<^verbatim>\<open>MessageAnsweredEvent{ID}\<close>.
\<close>

datatype any =
    MessageCreatedEvent string string
  | MessageReactionCountChangedEvent string int64
  | MessageAnsweredEvent string

record Message =
  Kind :: string
  Value :: any
  RoomID :: string

text \<open>\<^verbatim>\<open>GetMessageOutput{ID, Message, ReactionCount, Answered}\<close> and the small output structs.\<close>

datatype GetMessageOutput = GetMessageOutput string string int64 bool

definition KindMessageCreated :: string where
  "KindMessageCreated = ''message_created''"

section \<open>JSON encoding of the structs\<close>

text \<open>
  The structs are serialised by Go's \<^verbatim>\<open>encoding/json\<close>. A struct becomes an object
  with one member per exported field, in declaration order. The member's key is the
  name given in the field's \<^verbatim>\<open>json:"..."\<close> tag; a field without a tag keeps its Go
  name; a field tagged \<^verbatim>\<open>json:"-"\<close> is left out. (No tag of this repository carries
  an option such as \<^verbatim>\<open>omitempty\<close>.)
\<close>

datatype json =
    JNull
  | JBool bool
  | JNumber int
  | JString string
  | JArray "json list"
  | JObject "(string \<times> json) list"

datatype tag = NoTag | Tag string

type_synonym field = "string \<times> tag \<times> json"

fun encode_field :: "field \<Rightarrow> (string \<times> json) list" where
  "encode_field (name, NoTag, v) = [(name, v)]"
| "encode_field (name, Tag t, v) = (if t = ''-'' then [] else [(t, v)])"

definition encode_struct :: "field list \<Rightarrow> json" where
  "encode_struct fs = JObject (concat (map encode_field fs))"

fun fields_any :: "any \<Rightarrow> field list" where
  "fields_any (MessageCreatedEvent i m) =
     [(''ID'', NoTag, JString i), (''Message'', NoTag, JString m)]"
| "fields_any (MessageReactionCountChangedEvent i n) =
     [(''ID'', NoTag, JString i), (''Count'', NoTag, JNumber (sint n))]"
| "fields_any (MessageAnsweredEvent i) =
     [(''ID'', NoTag, JString i)]"

definition fields_Message :: "Message \<Rightarrow> field list" where
  "fields_Message m =
     [(''Kind'', Tag ''kind'', JString (Kind m)),
      (''Value'', Tag ''value'', encode_struct (fields_any (Value m))),
      (''RoomID'', Tag ''-'', JString (RoomID m))]"

fun fields_GetMessageOutput :: "GetMessageOutput \<Rightarrow> field list" where
  "fields_GetMessageOutput (GetMessageOutput i m n a) =
     [(''ID'', Tag ''id'', JString i),
      (''Message'', Tag ''theme'', JString m),
      (''ReactionCount'', Tag ''reaction_count'', JNumber (sint n)),
      (''Answered'', Tag ''answered'', JBool a)]"



definition json_Message :: "Message \<Rightarrow> json" where
  "json_Message m = encode_struct (fields_Message m)"

definition json_GetMessageOutput :: "GetMessageOutput \<Rightarrow> json" where
  "json_GetMessageOutput out = encode_struct (fields_GetMessageOutput out)"



text \<open>The keys of an object, in order; no keys for any other document.\<close>

fun keys_of :: "json \<Rightarrow> string list" where
  "keys_of (JObject kvs) = map fst kvs"
| "keys_of _ = []"

fun member_of :: "json \<Rightarrow> string \<Rightarrow> json option" where
  "member_of (JObject kvs) k = map_of kvs k"
| "member_of _ k = None"

subsection \<open>The text of a document\<close>

text \<open>
  The compact text that \<^verbatim>\<open>conn.WriteJSON\<close> puts on the wire (through a
  \<^verbatim>\<open>json.Encoder\<close>, which escapes the HTML characters). In a string, the quote and
  the backslash are escaped with a backslash, line feed, carriage return, tab,
  backspace and form feed get their short forms, every other byte below 0x20 and
  \<^verbatim>\<open><\<close>, \<^verbatim>\<open>>\<close>, \<^verbatim>\<open>&\<close> are written as \<^verbatim>\<open>\u00XX\<close>; all other bytes are copied
  (the string is taken to be valid UTF-8 without the separators U+2028 and U+2029).
\<close>

definition hex_digit :: "nat \<Rightarrow> char" where
  "hex_digit n = ''0123456789abcdef'' ! (n mod 16)"

definition unicode_escape :: "char \<Rightarrow> string" where
  "unicode_escape c =
     [CHR 0x5C, CHR ''u'', CHR ''0'', CHR ''0'',
      hex_digit (of_char c div 16), hex_digit (of_char c)]"

definition escape_char :: "char \<Rightarrow> string" where
  "escape_char c =
     (if c = CHR 0x22 then [CHR 0x5C, CHR 0x22]
      else if c = CHR 0x5C then [CHR 0x5C, CHR 0x5C]
      else if c = CHR 0x0A then [CHR 0x5C, CHR ''n'']
      else if c = CHR 0x0D then [CHR 0x5C, CHR ''r'']
      else if c = CHR 0x09 then [CHR 0x5C, CHR ''t'']
      else if c = CHR 0x08 then [CHR 0x5C, CHR ''b'']
      else if c = CHR 0x0C then [CHR 0x5C, CHR ''f'']
      else if (of_char c :: nat) < 32 \<or> c = CHR ''<'' \<or> c = CHR ''>'' \<or> c = CHR ''&''
        then unicode_escape c
      else [c])"

definition quote :: "string \<Rightarrow> string" where
  "quote s = [CHR 0x22] @ concat (map escape_char s) @ [CHR 0x22]"

fun join :: "string \<Rightarrow> string list \<Rightarrow> string" where
  "join sep [] = []"
| "join sep [x] = x"
| "join sep (x # y # ys) = x @ sep @ join sep (y # ys)"

fun digits :: "nat \<Rightarrow> string" where
  "digits n =
     (if n < 10 then [''0123456789'' ! n]
      else digits (n div 10) @ [''0123456789'' ! (n mod 10)])"

fun render :: "json \<Rightarrow> string" where
  "render JNull = ''null''"
| "render (JBool b) = (if b then ''true'' else ''false'')"
| "render (JNumber i) = (if i < 0 then ''-'' @ digits (nat (- i)) else digits (nat i))"
| "render (JString s) = quote s"
| "render (JArray xs) = ''['' @ join '','' (map render xs) @ '']''"
| "render (JObject kvs) =
     ''{'' @ join '','' (map (\<lambda>(k, v). quote k @ '':'' @ render v) kvs) @ ''}''"

section \<open>The handler and what surrounds it: internal/api\<close>

text \<open>
  A \<^verbatim>\<open>*websocket.Conn\<close> is a pointer: \<open>NilConn\<close> is the nil pointer, \<open>Conn n\<close> the
  connection at address \<open>n\<close>. A \<^verbatim>\<open>context.CancelFunc\<close> is named by the number of
  the context it cancels.
\<close>

datatype conn = NilConn | Conn nat

type_synonym CancelFunc = nat

text \<open>
  \<^verbatim>\<open>subscribers map[string]map[*websocket.Conn]context.CancelFunc\<close>. The outer map
  is a partial function. The inner map is an association list, since
  \<^verbatim>\<open>notifyClients\<close> ranges over it: the list's order stands for the order in which
  Go's runtime happens to enumerate the map, which is unspecified. A Go map holds
  one value per key, so the keys of a well-formed inner map are distinct.
\<close>

type_synonym registry = "string \<rightharpoonup> (conn \<times> CancelFunc) list"

record Handler =
  subscribers :: registry

definition wf_registry :: "registry \<Rightarrow> bool" where
  "wf_registry reg = (\<forall>room subs. reg room = Some subs \<longrightarrow> distinct (map fst subs))"

definition members :: "registry \<Rightarrow> string \<Rightarrow> conn set" where
  "members reg room = (case reg room of None \<Rightarrow> {} | Some subs \<Rightarrow> fst ` set subs)"

text \<open>
  What a call does beyond changing \<^verbatim>\<open>h.subscribers\<close>, in order: taking and
  releasing \<^verbatim>\<open>h.mu\<close>, a \<^verbatim>\<open>WriteJSON\<close> attempted on a connection, a log record,
  a cancellation, a response written with \<^verbatim>\<open>c.PureJSON\<close>, a goroutine started with
  \<^verbatim>\<open>go h.notifyClients(msg)\<close>, and the deferred \<^verbatim>\<open>conn.Close()\<close>.
\<close>

datatype action =
    Lock
  | Unlock
  | WriteJSON nat Message
  | LogError string
  | LogWarn string
  | LogInfo string
  | Cancel CancelFunc
  | PureJSON nat json
  | Go Message
  | Close nat

text \<open>A call returns, or panics (a nil pointer is dereferenced).\<close>

datatype outcome = Returned | Panicked

text \<open>The query layer (pgstore) answers with a row or an error.\<close>

datatype qerror = ErrNoRows | OtherError string

datatype pgstore_Room = Room uuid string

datatype pgstore_Message =
  PgMessage (row_ID: uuid) (row_RoomID: uuid) (row_Message: string)
            (row_ReactionCount: int64) (row_Answered: bool)

text \<open>
  The request as the handlers read it: the two URI parameters and the body.
\<close>

record request =
  room_id :: string
  message_id :: string
  body :: string

text \<open>
  The collaborators that are not code of this repository are parameters: gin's
  binding and validation (\<open>Inl\<close> carries \<^verbatim>\<open>err.Error()\<close>), the uuid library, the
  queries of pgstore, the websocket upgrader (\<open>Inr n\<close> is the new connection), and
  whether a \<^verbatim>\<open>WriteJSON\<close> on a live connection succeeds. A nil slice returned by
  \<^verbatim>\<open>GetRoomMessages\<close> is \<open>None\<close>.
\<close>

record env =
  ShouldBindUri_GetRoomByIDInput :: "request \<Rightarrow> string + string"
  ShouldBindUri_GetMessageByIDInput :: "request \<Rightarrow> string + (string \<times> string)"
  ShouldBindJSON_CreateMessageInput :: "request \<Rightarrow> string + string"
  MustParse :: "string \<Rightarrow> uuid"
  String :: "uuid \<Rightarrow> string"
  GetRoom :: "uuid \<Rightarrow> qerror + pgstore_Room"
  GetMessage :: "uuid \<Rightarrow> qerror + pgstore_Message"
  GetRoomMessages :: "uuid \<Rightarrow> qerror + pgstore_Message list option"
  InsertMessage :: "uuid \<Rightarrow> string \<Rightarrow> qerror + uuid"
  ReactToMessage :: "uuid \<Rightarrow> qerror + int64"
  RemoveReactionFromMessage :: "uuid \<Rightarrow> qerror + int64"
  MarkMessageAsAnswered :: "uuid \<Rightarrow> qerror option"
  Upgrade :: "request \<Rightarrow> string + nat"
  write_ok :: "nat \<Rightarrow> Message \<Rightarrow> bool"

definition NewHandler :: Handler where
  "NewHandler = \<lparr>subscribers = Map.empty\<rparr>"

subsection \<open>notifyClients\<close>

text \<open>
  The \<^verbatim>\<open>for conn, cancel := range subscribers\<close> loop. \<^verbatim>\<open>conn.WriteJSON\<close> on the nil
  pointer dereferences it and panics; on a live connection it returns an error or
  not, as the network decides. After an error the loop logs, cancels, and goes on.
\<close>

fun range_subscribers ::
  "env \<Rightarrow> Message \<Rightarrow> (conn \<times> CancelFunc) list \<Rightarrow> action list \<times> outcome" where
  "range_subscribers e msg [] = ([], Returned)"
| "range_subscribers e msg ((NilConn, cancel) # rest) = ([], Panicked)"
| "range_subscribers e msg ((Conn c, cancel) # rest) =
     (let here = (if write_ok e c msg then [WriteJSON c msg]
                  else [WriteJSON c msg,
                        LogError ''failed to send message to client'',
                        Cancel cancel]);
          (acts, out) = range_subscribers e msg rest
      in (here @ acts, out))"

text \<open>
  \<^verbatim>\<open>h.mu.Lock(); defer h.mu.Unlock()\<close>: the lock is taken first and released when
  the function is left, also when it is left by a panic.
\<close>

definition notifyClients ::
  "env \<Rightarrow> Message \<Rightarrow> Handler \<Rightarrow> (action list \<times> outcome) \<times> Handler" where
  "notifyClients e msg h =
     (case subscribers h (RoomID msg) of
        None \<Rightarrow> (([Lock, Unlock], Returned), h)
      | Some subs \<Rightarrow>
          if length subs = 0 then (([Lock, Unlock], Returned), h)
          else (let (acts, out) = range_subscribers e msg subs
                in (([Lock] @ acts @ [Unlock], out), h)))"

subsection \<open>handleSubscribe\<close>

text \<open>
  Lines 122 to 129: the room's inner map is created when it is missing, then
  \<^verbatim>\<open>h.subscribers[room][conn] = cancel\<close>.
\<close>

definition register :: "string \<Rightarrow> conn \<Rightarrow> CancelFunc \<Rightarrow> registry \<Rightarrow> registry" where
  "register room c cancel reg =
     (let reg' = (case reg room of None \<Rightarrow> reg(room \<mapsto> []) | Some _ \<Rightarrow> reg)
      in reg'(room \<mapsto> AList.update c cancel (the (reg' room))))"

text \<open>
  Lines 133 to 135: \<^verbatim>\<open>delete(h.subscribers[room], conn)\<close>. Reading a missing room
  yields the nil map and adds nothing to the outer map; \<^verbatim>\<open>delete\<close> on the nil map
  does nothing.
\<close>

definition deregister :: "string \<Rightarrow> conn \<Rightarrow> registry \<Rightarrow> registry" where
  "deregister room c reg =
     (case reg room of
        None \<Rightarrow> reg
      | Some subs \<Rightarrow> reg(room \<mapsto> AList.delete c subs))"

text \<open>
  The handler blocks at \<^verbatim>\<open><-ctx.Done()\<close>. The model is cut there: the first
  function runs the handler up to that point, and says whether it returned before
  (\<open>Finished\<close>) or is now waiting (\<open>Waiting room conn cancel\<close>); the second one runs
  the rest once the context is done. \<open>cancel\<close> is the handle that
  \<^verbatim>\<open>context.WithCancel\<close> creates in this call.
\<close>

datatype session = Finished | Waiting string conn CancelFunc

definition handleSubscribe ::
  "env \<Rightarrow> request \<Rightarrow> CancelFunc \<Rightarrow> Handler \<Rightarrow> (action list \<times> session) \<times> Handler" where
  "handleSubscribe e req cancel h =
     (case ShouldBindUri_GetRoomByIDInput e req of
        Inl err \<Rightarrow> (([PureJSON 400 (JObject [(''error'', JString err)])], Finished), h)
      | Inr uri \<Rightarrow>
          (let roomID = MustParse e uri in
           case GetRoom e roomID of
             Inl ErrNoRows \<Rightarrow> (([PureJSON 404 (JString ''room not found'')], Finished), h)
           | Inl (OtherError x) \<Rightarrow>
               (([LogError ''failed to get room'',
                  PureJSON 500 (JString ''something went wrong'')], Finished), h)
           | Inr _ \<Rightarrow>
               (let (upgrade, conn) =
                      (case Upgrade e req of
                         Inl err \<Rightarrow>
                           ([LogWarn ''failed to upgrade connection'',
                             PureJSON 400 (JString ''something went wrong'')], NilConn)
                       | Inr c \<Rightarrow> ([], Conn c))
                in ((upgrade @ [Lock, LogInfo ''new client connected'', Unlock],
                     Waiting (String e roomID) conn cancel),
                    h\<lparr>subscribers := register (String e roomID) conn cancel (subscribers h)\<rparr>))))"

text \<open>
  After \<^verbatim>\<open><-ctx.Done()\<close>: the connection is deleted from its room under the lock,
  then the deferred \<^verbatim>\<open>conn.Close()\<close> runs, which dereferences the pointer.
\<close>

definition handleSubscribe_done ::
  "string \<Rightarrow> conn \<Rightarrow> Handler \<Rightarrow> (action list \<times> outcome) \<times> Handler" where
  "handleSubscribe_done room c h =
     (([Lock, Unlock] @ (case c of NilConn \<Rightarrow> [] | Conn n \<Rightarrow> [Close n]),
       (case c of NilConn \<Rightarrow> Panicked | Conn n \<Rightarrow> Returned)),
      h\<lparr>subscribers := deregister room c (subscribers h)\<rparr>)"

subsection \<open>The write handlers\<close>





subsection \<open>The read handlers for messages\<close>

definition handleGetRoomMessage :: "env \<Rightarrow> request \<Rightarrow> action list" where
  "handleGetRoomMessage e req =
     (case ShouldBindUri_GetMessageByIDInput e req of
        Inl err \<Rightarrow> [PureJSON 400 (JString err)]
      | Inr (uriRoom, uriMessage) \<Rightarrow>
          (let roomID = MustParse e uriRoom in
           case GetRoom e roomID of
             Inl ErrNoRows \<Rightarrow> [PureJSON 404 (JString ''room not found'')]
           | Inl (OtherError x) \<Rightarrow>
               [LogError ''failed to get room'',
                PureJSON 500 (JString ''something went wrong'')]
           | Inr _ \<Rightarrow>
               (let messageID = MustParse e uriMessage in
                case GetMessage e messageID of
                  Inl ErrNoRows \<Rightarrow> [PureJSON 404 (JString ''message not found'')]
                | Inl (OtherError x) \<Rightarrow>
                    [LogError ''failed to get message'',
                     PureJSON 500 (JString ''something went wrong'')]
                | Inr message \<Rightarrow>
                    [PureJSON 200
                       (json_GetMessageOutput
                          (GetMessageOutput (String e messageID) (row_Message message)
                             (row_ReactionCount message) (row_Answered message)))])))"

text \<open>
  \<^verbatim>\<open>var output []schema.GetMessageOutput\<close> starts as the nil slice and each row is
  appended to it: with no row to append it stays nil, which is written as
  \<^verbatim>\<open>null\<close>.
\<close>

definition handleGetRoomMessages :: "env \<Rightarrow> request \<Rightarrow> action list" where
  "handleGetRoomMessages e req =
     (case ShouldBindUri_GetRoomByIDInput e req of
        Inl err \<Rightarrow> [PureJSON 400 (JString err)]
      | Inr uri \<Rightarrow>
          (let roomID = MustParse e uri in
           case GetRoom e roomID of
             Inl ErrNoRows \<Rightarrow> [PureJSON 404 (JString ''room not found'')]
           | Inl (OtherError x) \<Rightarrow>
               [LogError ''failed to get room'',
                PureJSON 500 (JString ''something went wrong'')]
           | Inr _ \<Rightarrow>
               (case GetRoomMessages e roomID of
                  Inl _ \<Rightarrow>
                    [LogError ''failed to get room messages'',
                     PureJSON 500 (JString ''something went wrong'')]
                | Inr None \<Rightarrow> [PureJSON 200 (JArray [])]
                | Inr (Some messages) \<Rightarrow>
                    (let output =
                           map (\<lambda>message.
                                  GetMessageOutput (String e (row_ID message))
                                    (row_Message message) (row_ReactionCount message)
                                    (row_Answered message)) messages
                     in [PureJSON 200
                           (if output = [] then JNull
                            else JArray (map json_GetMessageOutput output))]))))"

section \<open>Reading a list of actions\<close>

text \<open>
  The inner map as a read of \<^verbatim>\<open>h.subscribers[room]\<close> gives it: empty when the
  room is missing.
\<close>

definition room_of :: "registry \<Rightarrow> string \<Rightarrow> (conn \<times> CancelFunc) list" where
  "room_of reg room = (case reg room of None \<Rightarrow> [] | Some subs \<Rightarrow> subs)"

text \<open>The connections written to, the handles cancelled, the responses sent, in order.\<close>

fun written :: "action list \<Rightarrow> (conn \<times> Message) list" where
  "written [] = []"
| "written (WriteJSON c m # as) = (Conn c, m) # written as"
| "written (a # as) = written as"







section \<open>Sequences of registrations and deregistrations\<close>

datatype reg_op = Register CancelFunc | Deregister

fun apply_op :: "string \<Rightarrow> conn \<Rightarrow> reg_op \<Rightarrow> registry \<Rightarrow> registry" where
  "apply_op room c (Register cancel) reg = register room c cancel reg"
| "apply_op room c Deregister reg = deregister room c reg"

definition apply_ops :: "string \<Rightarrow> conn \<Rightarrow> reg_op list \<Rightarrow> registry \<Rightarrow> registry" where
  "apply_ops room c ops reg = fold (apply_op room c) ops reg"

fun same_call :: "reg_op \<Rightarrow> reg_op \<Rightarrow> bool" where
  "same_call (Register _) (Register _) = True"
| "same_call Deregister Deregister = True"
| "same_call _ _ = False"

text \<open>A run of consecutive calls of the same kind is collapsed to its last call.\<close>

fun collapse :: "reg_op list \<Rightarrow> reg_op list" where
  "collapse [] = []"
| "collapse [x] = [x]"
| "collapse (x # y # ops) =
     (if same_call x y then collapse (y # ops) else x # collapse (y # ops))"

section \<open>The routes of the write requests\<close>



text \<open>Whether the connection is a member of its room after the call.\<close>

fun member_after :: "reg_op \<Rightarrow> bool" where
  "member_after (Register k) = True"
| "member_after Deregister = False"

section \<open>Concrete inputs\<close>

text \<open>
  Two rooms and a message, a query layer that knows them, an upgrader that accepts
  the connection, and a network on which every connection but number 2 can be
  written to.
\<close>

definition room1 :: string where "room1 = ''0b9d4e1a-5c62-4f0e-9d3a-000000000001''"
definition room2 :: string where "room2 = ''0b9d4e1a-5c62-4f0e-9d3a-000000000002''"
definition message1 :: string where "message1 = ''0b9d4e1a-5c62-4f0e-9d3a-000000000003''"

definition demo_env :: env where
  "demo_env =
     \<lparr>ShouldBindUri_GetRoomByIDInput = (\<lambda>r. Inr (room_id r)),
      ShouldBindUri_GetMessageByIDInput = (\<lambda>r. Inr (room_id r, message_id r)),
      ShouldBindJSON_CreateMessageInput = (\<lambda>r. Inr (body r)),
      MustParse = (\<lambda>s. if s = room1 then 1 else if s = room2 then 2
                          else if s = message1 then 3 else 0),
      String = (\<lambda>u. if u = 1 then room1 else if u = 2 then room2
                       else if u = 3 then message1
                       else ''00000000-0000-0000-0000-000000000000''),
      GetRoom = (\<lambda>u. if u = 1 \<or> u = 2 then Inr (Room u ''golang'') else Inl ErrNoRows),
      GetMessage = (\<lambda>u. if u = 3 then Inr (PgMessage 3 1 ''hi'' 4 False) else Inl ErrNoRows),
      GetRoomMessages = (\<lambda>u. if u = 1 then Inr (Some [PgMessage 3 1 ''hi'' 4 False])
                               else Inr None),
      InsertMessage = (\<lambda>u t. Inr 3),
      ReactToMessage = (\<lambda>u. Inr 5),
      RemoveReactionFromMessage = (\<lambda>u. Inr 3),
      MarkMessageAsAnswered = (\<lambda>u. None),
      Upgrade = (\<lambda>r. Inr 1),
      write_ok = (\<lambda>c m. c \<noteq> 2)\<rparr>"

definition no_upgrade_env :: env where
  "no_upgrade_env =
     demo_env\<lparr>Upgrade :=
       (\<lambda>r. Inl ''websocket: the client is not using the websocket protocol'')\<rparr>"

definition demo_request :: request where
  "demo_request = \<lparr>room_id = room1, message_id = message1, body = ''hi''\<rparr>"

definition created_m1 :: Message where
  "created_m1 =
     \<lparr>Kind = KindMessageCreated, Value = MessageCreatedEvent ''m1'' ''hi'', RoomID = ''R''\<rparr>"


definition message_created :: "string \<Rightarrow> string \<Rightarrow> string \<Rightarrow> Message" where
  "message_created room i t =
     \<lparr>Kind = KindMessageCreated, Value = MessageCreatedEvent i t, RoomID = room\<rparr>"

definition one_subscriber :: Handler where
  "one_subscriber = \<lparr>subscribers = register room1 (Conn 1) 7 Map.empty\<rparr>"

definition emptied_room :: Handler where
  "emptied_room =
     \<lparr>subscribers = deregister room1 (Conn 1) (register room1 (Conn 1) 7 Map.empty)\<rparr>"


section \<open>Lemmas about the loop and the registry\<close>

lemma written_append: "written (xs @ ys) = written xs @ written ys"
  by (induction xs rule: written.induct) simp_all








lemma range_written_subset:
  "set (written (fst (range_subscribers e msg subs))) \<subseteq> (\<lambda>s. (fst s, msg)) ` set subs"
  by (induction e msg subs rule: range_subscribers.induct)
     (auto simp: Let_def written_append split: prod.splits)




lemma notify_trace:
  "fst (fst (notifyClients e msg h)) =
     [Lock] @ fst (range_subscribers e msg (room_of (subscribers h) (RoomID msg))) @ [Unlock]"
  by (auto simp: notifyClients_def room_of_def split: option.splits prod.splits)


lemma notify_handler: "snd (notifyClients e msg h) = h"
  by (auto simp: notifyClients_def split: option.splits prod.splits)

lemma members_room_of: "members reg room = fst ` set (room_of reg room)"
  by (simp add: members_def room_of_def split: option.splits)

lemma keys_delete: "fst ` set (AList.delete k al) = fst ` set al - {k}"
proof -
  have "set (map fst (AList.delete k al)) = set (map fst al) - {k}"
    by (simp only: delete_keys set_removeAll)
  then show ?thesis by simp
qed

lemma members_register:
  "members (register room c k reg) r =
     (if r = room then insert c (members reg room) else members reg r)"
  by (simp add: members_def register_def Let_def dom_update split: option.splits)

lemma members_deregister:
  "members (deregister room c reg) r =
     (if r = room then members reg room - {c} else members reg r)"
  by (simp add: members_def deregister_def keys_delete split: option.splits)

lemma members_empty: "members Map.empty room = {}"
  by (simp add: members_def)


lemma members_apply_op:
  "members (apply_op room c x reg) r =
     (if r = room then (if member_after x then insert c (members reg room)
                        else members reg room - {c})
      else members reg r)"
  by (cases x) (simp_all add: members_register members_deregister)

lemma members_apply_op_cong:
  "members reg r = members reg' r \<Longrightarrow>
   members (apply_op room c x reg) r = members (apply_op room c x reg') r"
  by (cases "r = room") (simp_all add: members_apply_op)

lemma members_fold_cong:
  "members reg r = members reg' r \<Longrightarrow>
   members (fold (apply_op room c) ops reg) r = members (fold (apply_op room c) ops reg') r"
proof (induction ops arbitrary: reg reg')
  case Nil
  then show ?case by simp
next
  case (Cons x ops)
  have "members (apply_op room c x reg) r = members (apply_op room c x reg') r"
    using Cons.prems by (rule members_apply_op_cong)
  then have "members (fold (apply_op room c) ops (apply_op room c x reg)) r =
             members (fold (apply_op room c) ops (apply_op room c x reg')) r"
    by (rule Cons.IH)
  then show ?case by simp
qed

lemma members_same_call:
  assumes "same_call x y"
  shows "members (apply_op room c y (apply_op room c x reg)) r =
         members (apply_op room c y reg) r"
proof -
  from assms have "member_after x = member_after y"
    by (cases x; cases y) simp_all
  then show ?thesis
    by (cases "r = room") (auto simp: members_apply_op)
qed

lemma collapse_same: "same_call x y \<Longrightarrow> collapse (x # y # ops) = collapse (y # ops)"
  by simp

lemma collapse_other:
  "\<not> same_call x y \<Longrightarrow> collapse (x # y # ops) = x # collapse (y # ops)"
  by simp

lemma members_collapse:
  "members (fold (apply_op room c) (collapse ops) reg) r =
   members (fold (apply_op room c) ops reg) r"
proof (induction ops arbitrary: reg rule: collapse.induct)
  case 1
  show ?case by simp
next
  case (2 x)
  show ?case by simp
next
  case (3 x y ops)
  show ?case
  proof (cases "same_call x y")
    case True
    have "members (fold (apply_op room c) (collapse (x # y # ops)) reg) r =
          members (fold (apply_op room c) (collapse (y # ops)) reg) r"
      by (simp only: collapse_same [OF True])
    also have "\<dots> = members (fold (apply_op room c) (y # ops) reg) r"
      using True by (rule "3.IH"(1))
    also have "\<dots> = members (fold (apply_op room c) ops (apply_op room c y reg)) r"
      by simp
    also have "\<dots> = members (fold (apply_op room c) ops
                          (apply_op room c y (apply_op room c x reg))) r"
      by (rule members_fold_cong) (simp only: members_same_call [OF True])
    also have "\<dots> = members (fold (apply_op room c) (x # y # ops) reg) r"
      by simp
    finally show ?thesis .
  next
    case False
    have "members (fold (apply_op room c) (collapse (x # y # ops)) reg) r =
          members (fold (apply_op room c) (collapse (y # ops)) (apply_op room c x reg)) r"
      by (simp only: collapse_other [OF False] fold_simps)
    also have "\<dots> = members (fold (apply_op room c) (y # ops) (apply_op room c x reg)) r"
      using False by (rule "3.IH"(2))
    also have "\<dots> = members (fold (apply_op room c) (x # y # ops) reg) r"
      by simp
    finally show ?thesis .
  qed
qed

lemma deregister_absent:
  assumes "c \<notin> members reg room"
  shows "deregister room c reg = reg"
proof (cases "reg room")
  case None
  then show ?thesis by (simp add: deregister_def)
next
  case (Some subs)
  with assms have "c \<notin> fst ` set subs" by (simp add: members_def)
  then have "AList.delete c subs = subs" by (rule delete_id)
  with Some show ?thesis by (simp add: deregister_def map_upd_triv)
qed

lemma register_same:
  "register room c k reg room = Some (AList.update c k (room_of reg room))"
  by (simp add: register_def room_of_def Let_def split: option.splits)

lemma register_other: "r \<noteq> room \<Longrightarrow> register room c k reg r = reg r"
  by (simp add: register_def Let_def split: option.splits)

lemma deregister_same:
  "deregister room c reg room = map_option (AList.delete c) (reg room)"
  by (simp add: deregister_def split: option.splits)

lemma deregister_other: "r \<noteq> room \<Longrightarrow> deregister room c reg r = reg r"
  by (simp add: deregister_def split: option.splits)

lemma wf_room_of: "wf_registry reg \<Longrightarrow> distinct (map fst (room_of reg room))"
  by (simp add: wf_registry_def room_of_def split: option.splits)

lemma wf_register:
  assumes "wf_registry reg"
  shows "wf_registry (register room c k reg)"
  unfolding wf_registry_def
proof (intro allI impI)
  fix r subs
  assume s: "register room c k reg r = Some subs"
  show "distinct (map fst subs)"
  proof (cases "r = room")
    case True
    with s have "subs = AList.update c k (room_of reg room)"
      by (simp add: register_same)
    then show ?thesis
      using wf_room_of [OF assms, of room] by (simp add: distinct_update)
  next
    case False
    with s have "reg r = Some subs" by (simp add: register_other)
    with assms show ?thesis unfolding wf_registry_def by blast
  qed
qed

lemma wf_deregister:
  assumes "wf_registry reg"
  shows "wf_registry (deregister room c reg)"
  unfolding wf_registry_def
proof (intro allI impI)
  fix r subs
  assume s: "deregister room c reg r = Some subs"
  show "distinct (map fst subs)"
  proof (cases "r = room")
    case True
    with s obtain old where o: "reg room = Some old" and n: "subs = AList.delete c old"
      by (auto simp: deregister_same)
    from assms o have "distinct (map fst old)" unfolding wf_registry_def by blast
    with n show ?thesis by (simp add: distinct_delete)
  next
    case False
    with s have "reg r = Some subs" by (simp add: deregister_other)
    with assms show ?thesis unfolding wf_registry_def by blast
  qed
qed

lemma count_distinct_key:
  "distinct (map fst al) \<Longrightarrow> k \<in> fst ` set al \<Longrightarrow> length (filter (\<lambda>s. fst s = k) al) = 1"
  by (induction al) (auto simp: filter_empty_conv image_iff)

lemma room_of_register:
  "room_of (register room c k reg) room = AList.update c k (room_of reg room)"
  by (simp add: room_of_def register_same)

lemma register_twice_single:
  assumes "wf_registry reg"
  shows "length (filter (\<lambda>s. fst s = c) (room_of (register room c k2 (register room c k1 reg)) room)) = 1"
proof -
  let ?al = "room_of (register room c k2 (register room c k1 reg)) room"
  have "wf_registry (register room c k2 (register room c k1 reg))"
    using assms by (intro wf_register)
  then have d: "distinct (map fst ?al)" by (rule wf_room_of)
  have "c \<in> fst ` set ?al"
    by (simp add: room_of_register dom_update)
  with d show ?thesis by (rule count_distinct_key)
qed

lemma register_twice_room:
  "room_of (register room c k2 (register room c k1 reg)) room =
   room_of (register room c k2 reg) room"
  by (simp add: room_of_register)

section \<open>Lemmas about the handlers\<close>











section \<open>The claims\<close>

text \<open>
  C1 (what the code does instead). When the URI binds, the room exists and the
  upgrade fails, \<^verbatim>\<open>handleSubscribe\<close> logs a warning and writes the 400 response,
  but does not return: it goes on with the nil connection, registers it under the
  room, and waits. Once its context is done it deregisters the nil connection, and
  the deferred \<^verbatim>\<open>conn.Close()\<close> panics.
\<close>

theorem handleSubscribe_upgrade_failure:
  assumes "ShouldBindUri_GetRoomByIDInput e req = Inr uri"
    and "GetRoom e (MustParse e uri) = Inr room"
    and "Upgrade e req = Inl err"
  shows "fst (handleSubscribe e req cancel h) =
           ([LogWarn ''failed to upgrade connection'',
             PureJSON 400 (JString ''something went wrong''),
             Lock, LogInfo ''new client connected'', Unlock],
            Waiting (String e (MustParse e uri)) NilConn cancel)
       \<and> NilConn \<in> members (subscribers (snd (handleSubscribe e req cancel h)))
                     (String e (MustParse e uri))
       \<and> snd (fst (handleSubscribe_done (String e (MustParse e uri)) NilConn
                     (snd (handleSubscribe e req cancel h)))) = Panicked"
  using assms
  by (simp add: handleSubscribe_def handleSubscribe_done_def members_register Let_def)

text \<open>
  The same on a request for an existing room whose upgrade is refused, starting
  from the empty registry.
\<close>

theorem handleSubscribe_upgrade_failure_witness:
  "fst (handleSubscribe no_upgrade_env demo_request 7 NewHandler) =
     ([LogWarn ''failed to upgrade connection'',
       PureJSON 400 (JString ''something went wrong''),
       Lock, LogInfo ''new client connected'', Unlock],
      Waiting room1 NilConn 7)
   \<and> NilConn \<in> members (subscribers (snd (handleSubscribe no_upgrade_env demo_request 7 NewHandler))) room1
   \<and> snd (fst (handleSubscribe_done room1 NilConn
                 (snd (handleSubscribe no_upgrade_env demo_request 7 NewHandler)))) = Panicked"
proof -
  have b: "ShouldBindUri_GetRoomByIDInput no_upgrade_env demo_request = Inr room1"
    by (simp add: no_upgrade_env_def demo_env_def demo_request_def)
  have p: "MustParse no_upgrade_env room1 = 1" "String no_upgrade_env 1 = room1"
    by (simp_all add: no_upgrade_env_def demo_env_def)
  have g: "GetRoom no_upgrade_env (MustParse no_upgrade_env room1) = Inr (Room 1 ''golang'')"
    by (simp add: no_upgrade_env_def demo_env_def)
  have u: "Upgrade no_upgrade_env demo_request =
             Inl ''websocket: the client is not using the websocket protocol''"
    by (simp add: no_upgrade_env_def demo_env_def)
  show ?thesis
    using handleSubscribe_upgrade_failure [OF b g u, of 7 NewHandler] by (simp add: p)
qed







text \<open>
  C5. Every write that \<^verbatim>\<open>notifyClients\<close> attempts is a write of the event itself
  to a connection registered under the event's room; a connection that is not
  registered under that room is not written to.
\<close>

theorem notifyClients_only_event_room:
  "fst ` set (written (fst (fst (notifyClients e msg h)))) \<subseteq> members (subscribers h) (RoomID msg)
   \<and> snd ` set (written (fst (fst (notifyClients e msg h)))) \<subseteq> {msg}
   \<and> (c \<notin> members (subscribers h) (RoomID msg) \<longrightarrow>
        c \<notin> fst ` set (written (fst (fst (notifyClients e msg h)))))"
proof -
  let ?subs = "room_of (subscribers h) (RoomID msg)"
  have w: "written (fst (fst (notifyClients e msg h))) = written (fst (range_subscribers e msg ?subs))"
    by (simp add: notify_trace written_append)
  have s: "set (written (fst (range_subscribers e msg ?subs))) \<subseteq> (\<lambda>s. (fst s, msg)) ` set ?subs"
    by (rule range_written_subset)
  have 1: "fst ` set (written (fst (fst (notifyClients e msg h)))) \<subseteq> members (subscribers h) (RoomID msg)"
  proof -
    have "fst ` set (written (fst (range_subscribers e msg ?subs))) \<subseteq>
            fst ` ((\<lambda>s. (fst s, msg)) ` set ?subs)"
      using s by (rule image_mono)
    then show ?thesis by (simp add: w members_room_of image_image)
  qed
  have 2: "snd ` set (written (fst (fst (notifyClients e msg h)))) \<subseteq> {msg}"
  proof -
    have "snd ` set (written (fst (range_subscribers e msg ?subs))) \<subseteq>
            snd ` ((\<lambda>s. (fst s, msg)) ` set ?subs)"
      using s by (rule image_mono)
    then show ?thesis by (auto simp: w image_image)
  qed
  from 1 2 show ?thesis by blast
qed

text \<open>
  A subscriber of the first room, an event for the second room: nothing is
  written to the subscriber.
\<close>

theorem notifyClients_only_event_room_witness:
  "Conn 1 \<in> members (subscribers one_subscriber) room1
   \<and> Conn 1 \<notin> members (subscribers one_subscriber) room2
   \<and> Conn 1 \<notin> fst ` set (written (fst (fst (notifyClients demo_env
                              (message_created room2 message1 ''hi'') one_subscriber))))"
proof -
  have r: "RoomID (message_created room2 message1 ''hi'') = room2"
    by (simp add: message_created_def)
  have m: "members (subscribers one_subscriber) room1 = {Conn 1}"
          "members (subscribers one_subscriber) room2 = {}"
    by (simp_all add: one_subscriber_def members_register members_empty room1_def room2_def)
  show ?thesis
    using notifyClients_only_event_room
            [of demo_env "message_created room2 message1 ''hi''" one_subscriber "Conn 1"]
    by (simp add: r m)
qed

text \<open>
  C6. For a sequence of register and deregister calls on one room and one
  connection, the members of every room are the same after the sequence and after
  the sequence with its consecutive duplicate calls collapsed. Deregistering a
  connection that is not a member changes nothing. In a well-formed registry a
  second register of the same connection leaves one entry for it, the room being
  what a single register of the second handle gives.
\<close>

theorem register_deregister_collapse:
  "members (apply_ops room c (collapse ops) reg) r = members (apply_ops room c ops reg) r
   \<and> (c \<notin> members reg room \<longrightarrow> deregister room c reg = reg)
   \<and> (wf_registry reg \<longrightarrow>
        length (filter (\<lambda>s. fst s = c)
                  (room_of (register room c k2 (register room c k1 reg)) room)) = 1
        \<and> room_of (register room c k2 (register room c k1 reg)) room =
            room_of (register room c k2 reg) room)"
proof (intro conjI impI)
  show "members (apply_ops room c (collapse ops) reg) r = members (apply_ops room c ops reg) r"
    unfolding apply_ops_def by (rule members_collapse)
next
  assume "c \<notin> members reg room"
  then show "deregister room c reg = reg" by (rule deregister_absent)
next
  assume "wf_registry reg"
  then show "length (filter (\<lambda>s. fst s = c)
                (room_of (register room c k2 (register room c k1 reg)) room)) = 1"
    by (rule register_twice_single)
next
  show "room_of (register room c k2 (register room c k1 reg)) room =
          room_of (register room c k2 reg) room"
    by (rule register_twice_room)
qed

text \<open>
  Five calls on the empty registry, collapsing to three.
\<close>

theorem register_deregister_collapse_witness:
  "collapse [Register 7, Register 8, Deregister, Deregister, Register 9] =
     [Register 8, Deregister, Register 9]
   \<and> members (apply_ops room1 (Conn 1) [Register 8, Deregister, Register 9] Map.empty) room1 =
       members (apply_ops room1 (Conn 1)
                  [Register 7, Register 8, Deregister, Deregister, Register 9] Map.empty) room1
   \<and> Conn 1 \<notin> members Map.empty room1
   \<and> deregister room1 (Conn 1) Map.empty = Map.empty
   \<and> wf_registry Map.empty
   \<and> length (filter (\<lambda>s. fst s = Conn 1)
               (room_of (register room1 (Conn 1) 8 (register room1 (Conn 1) 7 Map.empty))
                  room1)) = 1"
proof -
  let ?ops = "[Register 7, Register 8, Deregister, Deregister, Register 9]"
  have c: "collapse ?ops = [Register 8, Deregister, Register 9]"
    by simp
  have w: "wf_registry Map.empty" by (simp add: wf_registry_def)
  have m: "Conn 1 \<notin> members Map.empty room1" by (simp add: members_empty)
  note t = register_deregister_collapse [of room1 "Conn 1" ?ops Map.empty room1 8 7]
  have 1: "members (apply_ops room1 (Conn 1) (collapse ?ops) Map.empty) room1 =
           members (apply_ops room1 (Conn 1) ?ops Map.empty) room1"
    using t by (rule conjunct1)
  have 2: "deregister room1 (Conn 1) Map.empty = Map.empty"
    using t m by blast
  have 3: "length (filter (\<lambda>s. fst s = Conn 1)
               (room_of (register room1 (Conn 1) 8 (register room1 (Conn 1) 7 Map.empty))
                  room1)) = 1"
    using t w by blast
  from 1 have 4: "members (apply_ops room1 (Conn 1) [Register 8, Deregister, Register 9] Map.empty) room1 =
       members (apply_ops room1 (Conn 1) ?ops Map.empty) room1"
    unfolding c .
  from c 4 m 2 w 3 show ?thesis by (intro conjI)
qed

text \<open>
  C7. When the event's room is missing from the registry or its inner map is
  empty, \<^verbatim>\<open>notifyClients\<close> only takes and releases the lock: it returns normally,
  attempts no write, and the registry is as before.
\<close>

theorem notifyClients_no_subscribers:
  assumes "subscribers h (RoomID msg) = None \<or> subscribers h (RoomID msg) = Some []"
  shows "notifyClients e msg h = (([Lock, Unlock], Returned), h)
       \<and> written (fst (fst (notifyClients e msg h))) = []
       \<and> subscribers (snd (notifyClients e msg h)) = subscribers h"
  using assms by (auto simp: notifyClients_def)

text \<open>
  A room that never had a subscriber, and a room whose only subscriber left.
\<close>

theorem notifyClients_no_subscribers_witness:
  "subscribers NewHandler (RoomID created_m1) = None
   \<and> notifyClients demo_env created_m1 NewHandler = (([Lock, Unlock], Returned), NewHandler)
   \<and> subscribers emptied_room (RoomID (message_created room1 message1 ''hi'')) = Some []
   \<and> notifyClients demo_env (message_created room1 message1 ''hi'') emptied_room =
       (([Lock, Unlock], Returned), emptied_room)"
proof -
  have a: "subscribers NewHandler (RoomID created_m1) = None"
    by (simp add: NewHandler_def)
  have b: "subscribers emptied_room (RoomID (message_created room1 message1 ''hi'')) = Some []"
    by (simp add: emptied_room_def message_created_def register_def deregister_def)
  show ?thesis
    using a b
      notifyClients_no_subscribers [of NewHandler created_m1 demo_env]
      notifyClients_no_subscribers [of emptied_room "message_created room1 message1 ''hi''" demo_env]
    by simp
qed

text \<open>
  C8. The document of every \<^verbatim>\<open>schema.Message\<close> has the two keys \<^verbatim>\<open>kind\<close> and
  \<^verbatim>\<open>value\<close> and no other; the document and its text do not depend on
  \<^verbatim>\<open>RoomID\<close>; the value object carries no room field either.
\<close>

theorem message_payload_without_room:
  "keys_of (json_Message m) = [''kind'', ''value'']
   \<and> json_Message (m\<lparr>RoomID := r\<rparr>) = json_Message m
   \<and> render (json_Message (m\<lparr>RoomID := r\<rparr>)) = render (json_Message m)
   \<and> set (keys_of (encode_struct (fields_any (Value m)))) \<subseteq> {''ID'', ''Message'', ''Count''}"
  by (cases "Value m") (simp_all add: json_Message_def fields_Message_def encode_struct_def)



text \<open>
  C10. The body of a successful \<^verbatim>\<open>handleGetRoomMessage\<close> is an object in which the
  message's text is the member \<^verbatim>\<open>theme\<close>, and the body of a successful
  \<^verbatim>\<open>handleGetRoomMessages\<close> with rows is the array of such objects, one for each
  row; a \<^verbatim>\<open>GetMessageOutput\<close> document has no member \<^verbatim>\<open>message\<close>.
\<close>

theorem message_text_under_theme:
  "(ShouldBindUri_GetMessageByIDInput e req = Inr (uriRoom, uriMessage)
      \<and> GetRoom e (MustParse e uriRoom) = Inr room
      \<and> GetMessage e (MustParse e uriMessage) = Inr message \<longrightarrow>
    handleGetRoomMessage e req =
      [PureJSON 200
         (JObject [(''id'', JString (String e (MustParse e uriMessage))),
                   (''theme'', JString (row_Message message)),
                   (''reaction_count'', JNumber (sint (row_ReactionCount message))),
                   (''answered'', JBool (row_Answered message))])])
   \<and> (ShouldBindUri_GetRoomByIDInput e req = Inr uri
      \<and> GetRoom e (MustParse e uri) = Inr room
      \<and> GetRoomMessages e (MustParse e uri) = Inr (Some messages)
      \<and> messages \<noteq> [] \<longrightarrow>
    handleGetRoomMessages e req =
      [PureJSON 200
         (JArray (map (\<lambda>message.
                         JObject [(''id'', JString (String e (row_ID message))),
                                  (''theme'', JString (row_Message message)),
                                  (''reaction_count'',
                                   JNumber (sint (row_ReactionCount message))),
                                  (''answered'', JBool (row_Answered message))])
                    messages))])
   \<and> member_of (json_GetMessageOutput (GetMessageOutput i m n a)) ''theme'' = Some (JString m)
   \<and> member_of (json_GetMessageOutput (GetMessageOutput i m n a)) ''message'' = None"
  by (simp add: handleGetRoomMessage_def handleGetRoomMessages_def Let_def
        json_GetMessageOutput_def encode_struct_def comp_def)

text \<open>
  The message of the first room, read alone and in the list of its room.
\<close>

theorem message_text_under_theme_witness:
  "handleGetRoomMessage demo_env demo_request =
     [PureJSON 200
        (JObject [(''id'', JString message1), (''theme'', JString ''hi''),
                  (''reaction_count'', JNumber 4), (''answered'', JBool False)])]
   \<and> handleGetRoomMessages demo_env demo_request =
     [PureJSON 200
        (JArray [JObject [(''id'', JString message1), (''theme'', JString ''hi''),
                          (''reaction_count'', JNumber 4), (''answered'', JBool False)]])]"
proof -
  have b: "ShouldBindUri_GetMessageByIDInput demo_env demo_request = Inr (room1, message1)"
          "ShouldBindUri_GetRoomByIDInput demo_env demo_request = Inr room1"
    by (simp_all add: demo_env_def demo_request_def)
  have p: "MustParse demo_env room1 = 1" "MustParse demo_env message1 = 3"
          "String demo_env 3 = message1"
    by (simp_all add: demo_env_def room1_def room2_def message1_def)
  have q: "GetRoom demo_env 1 = Inr (Room 1 ''golang'')"
          "GetMessage demo_env 3 = Inr (PgMessage 3 1 ''hi'' 4 False)"
          "GetRoomMessages demo_env 1 = Inr (Some [PgMessage 3 1 ''hi'' 4 False])"
    by (simp_all add: demo_env_def)
  show ?thesis
    using message_text_under_theme
            [of demo_env demo_request room1 message1 "Room 1 ''golang''"
                "PgMessage 3 1 ''hi'' 4 False" room1 "[PgMessage 3 1 ''hi'' 4 False]"]
    by (simp add: b p q)
qed

end
